theory Spec2Isabelle
  imports Complex_Main
begin

section \<open>Page objects of the Sauce Demo test suite\<close>

text \<open>
  The page objects forward to a browser-automation engine and to the remote shop. The
  model keeps the part of the rendered page that the modelled methods read or change,
  passes it explicitly, and returns every failure as a value.

  Numbers: the array lengths, indices and counts of the source are integers (\<open>int\<close>);
  a result of \<open>Math.random()\<close> is a real in \<open>[0, 1)\<close>. A \<open>number\<close> that a method returns is
  \<open>NaN\<close> or the real value of a finite binary64 number. Strings are lists of
  characters; letters, digits and white space are the ASCII ones.
\<close>

subsection \<open>Errors, numbers, DOM fragments\<close>

datatype error =
    Error string      \<comment> \<open>\<open>throw new Error(message)\<close> of the page objects\<close>
  | TimeoutError      \<comment> \<open>the engine gave up waiting for an element or a URL\<close>

datatype number = NaN | Num real

text \<open>
  Binary64 arithmetic is not part of the model. What the price methods use of it is a
  parameter: the number nearest to a decimal (as \<open>parseFloat\<close> returns it), the sum of
  two numbers, and the text of a number from \<open>10^21\<close> on.
\<close>

record binary64 =
  fp_nearest :: "real \<Rightarrow> real"
  fp_add :: "real \<Rightarrow> real \<Rightarrow> real"
  fp_toString :: "real \<Rightarrow> string"

record element =
  inner_text :: string
  visible :: bool

record product =
  name :: string
  price :: string

text \<open>
  \<open>inventory_items\<close>: the \<open>.inventory_item\<close> cards in document order, each with its
  \<open>.inventory_item_name\<close> and \<open>.inventory_item_price\<close>.
  \<open>cart_items\<close>: the \<open>.cart_item\<close> rows of the cart in document order, each named by
  the key of its \<open>data-test="remove-<key>"\<close> button.
  The other fields are single elements, \<open>None\<close> when the element is not in the page.
\<close>

record page =
  inventory_items :: "product list"
  cart_items :: "string list"
  shopping_cart_badge :: "element option"
  pony_express :: "element option"
  summary_subtotal_label :: "element option"
  summary_tax_label :: "element option"
  summary_total_label :: "element option"

type_synonym 'a io = "page \<Rightarrow> (error + 'a) \<times> page"

text \<open>\<open>await m f\<close>: run \<open>m\<close>; a rejection ends the method, a value goes on to \<open>f\<close>.\<close>

definition await :: "'a io \<Rightarrow> ('a \<Rightarrow> 'b io) \<Rightarrow> 'b io" where
  "await m f s = (case m s of (Inl e, s') \<Rightarrow> (Inl e, s') | (Inr v, s') \<Rightarrow> f v s')"

definition resolve :: "'a \<Rightarrow> 'a io" where
  "resolve v s = (Inr v, s)"

definition reject :: "error \<Rightarrow> 'a io" where
  "reject e s = (Inl e, s)"

subsection \<open>Engine queries\<close>

text \<open>
  \<open>locator.count()\<close> never waits. \<open>locator.nth(i)\<close> is the element at position \<open>i\<close> of
  the matches, a negative \<open>i\<close> counting from the end. \<open>innerText()\<close> and \<open>click()\<close> wait
  for their element and reject with a timeout when there is none. \<open>isVisible()\<close> does
  not wait: no element is \<open>false\<close>.
\<close>

definition nth_index :: "nat \<Rightarrow> int \<Rightarrow> nat option" where
  "nth_index n i =
     (let j = (if i < 0 then int n + i else i)
      in if 0 \<le> j \<and> j < int n then Some (nat j) else None)"

definition nth_innerText :: "string list \<Rightarrow> int \<Rightarrow> string io" where
  "nth_innerText texts i =
     (case nth_index (length texts) i of
        Some j \<Rightarrow> resolve (texts ! j)
      | None \<Rightarrow> reject TimeoutError)"

definition innerText :: "element option \<Rightarrow> string io" where
  "innerText el = (case el of None \<Rightarrow> reject TimeoutError | Some e \<Rightarrow> resolve (inner_text e))"

definition isVisible :: "element option \<Rightarrow> bool io" where
  "isVisible el = (case el of None \<Rightarrow> resolve False | Some e \<Rightarrow> resolve (visible e))"

subsection \<open>InventoryPage: random selection\<close>

text \<open>
  \<open>generateRandomUniqueIndices(max, count)\<close>. The list \<open>rs\<close> holds the results of the
  successive calls of \<open>Math.random()\<close>; \<open>None\<close> is a loop that is still running when
  these draws are used up. A loop that has returned is not changed by further draws
  (\<open>loop_more_draws\<close>), so a run that never returns is a sequence of draws whose
  initial segments all give \<open>None\<close>.
\<close>

fun generateRandomUniqueIndices_loop ::
  "int \<Rightarrow> int \<Rightarrow> int list \<Rightarrow> real list \<Rightarrow> int list option" where
  "generateRandomUniqueIndices_loop mx count indices rs =
     (if int (length indices) < count then
        (case rs of
           [] \<Rightarrow> None
         | u # rs' \<Rightarrow>
             (let randomIndex = \<lfloor>u * of_int mx\<rfloor> in
                if randomIndex \<in> set indices
                then generateRandomUniqueIndices_loop mx count indices rs'
                else generateRandomUniqueIndices_loop mx count (indices @ [randomIndex]) rs'))
      else Some indices)"

declare generateRandomUniqueIndices_loop.simps [simp del]

definition generateRandomUniqueIndices :: "int \<Rightarrow> int \<Rightarrow> real list \<Rightarrow> int list option" where
  "generateRandomUniqueIndices mx count rs = generateRandomUniqueIndices_loop mx count [] rs"


definition unit_draws :: "real list \<Rightarrow> bool" where
  "unit_draws rs = list_all (\<lambda>u. 0 \<le> u \<and> u < 1) rs"


text \<open>\<open>max\<close> draws that produce every index once: \<open>0/max, 1/max, ...\<close>.\<close>

definition sweep :: "int \<Rightarrow> real list" where
  "sweep mx = map (\<lambda>j. of_nat j / of_int mx) [0..<nat mx]"

subsection \<open>InventoryPage: adding products\<close>

definition getProductCount :: "int io" where
  "getProductCount s = resolve (int (length (inventory_items s))) s"

definition getProductDetails :: "int \<Rightarrow> product io" where
  "getProductDetails index s =
     await (nth_innerText (map name (inventory_items s)) index) (\<lambda>nm.
     await (nth_innerText (map price (inventory_items s)) index) (\<lambda>pr.
     resolve \<lparr>name = nm, price = pr\<rparr>)) s"

text \<open>\<open>productName.toLowerCase().replace(/\s+/g, '-')\<close>, on ASCII letters and white space.\<close>

definition toLowerCase :: "string \<Rightarrow> string" where
  "toLowerCase str =
     map (\<lambda>c. case map_of (zip ''ABCDEFGHIJKLMNOPQRSTUVWXYZ'' ''abcdefghijklmnopqrstuvwxyz'') c of
                Some l \<Rightarrow> l | None \<Rightarrow> c) str"

definition is_space :: "char \<Rightarrow> bool" where
  "is_space c = (c \<in> set [CHR 0x09, CHR 0x0A, CHR 0x0B, CHR 0x0C, CHR 0x0D, CHR 0x20])"

function replace_spaces :: "string \<Rightarrow> string" where
  "replace_spaces [] = []"
| "replace_spaces (c # cs) =
     (if is_space c then CHR ''-'' # replace_spaces (dropWhile is_space cs)
      else c # replace_spaces cs)"
  by pat_completeness auto
termination
  by (relation "measure length") (auto simp: less_Suc_eq_le length_dropWhile_le)

definition kebabCase :: "string \<Rightarrow> string" where
  "kebabCase productName = replace_spaces (toLowerCase productName)"

text \<open>
  The click on \<open>[data-test="add-to-cart-<key>"]\<close>: the shop puts the item of that
  button into the cart, as a new last row. Which add buttons the page shows is not
  part of the page record: the click finds its button.
\<close>

definition click_add_to_cart :: "string \<Rightarrow> unit io" where
  "click_add_to_cart key s = resolve () (s\<lparr>cart_items := cart_items s @ [key]\<rparr>)"

definition addProductToCartByIndex :: "int \<Rightarrow> unit io" where
  "addProductToCartByIndex index s =
     await (nth_innerText (map name (inventory_items s)) index) (\<lambda>productName.
     click_add_to_cart (kebabCase productName)) s"

text \<open>Decimal rendering of an integer, as a template literal does.\<close>

fun show_nat :: "nat \<Rightarrow> string" where
  "show_nat n =
     (if n < 10 then [''0123456789'' ! n]
      else show_nat (n div 10) @ [''0123456789'' ! (n mod 10)])"

declare show_nat.simps [simp del]

definition show_int :: "int \<Rightarrow> string" where
  "show_int i = (if i < 0 then CHR ''-'' # show_nat (nat (- i)) else show_nat (nat i))"

text \<open>The body of \<open>for (const index of randomIndices)\<close>, with \<open>addedProducts\<close>.\<close>

fun addProducts_loop :: "int list \<Rightarrow> product list \<Rightarrow> product list io" where
  "addProducts_loop [] addedProducts = resolve addedProducts"
| "addProducts_loop (index # rest) addedProducts =
     await (getProductDetails index) (\<lambda>productDetails.
     await (addProductToCartByIndex index) (\<lambda>_.
     addProducts_loop rest (addedProducts @ [productDetails])))"

text \<open>
  \<open>addRandomProductsToCart(count)\<close> with the draws \<open>rs\<close>. The outer \<open>None\<close> is a call
  whose sampling loop is still running when the draws are used up.
\<close>

definition cannot_add_message :: "int \<Rightarrow> int \<Rightarrow> string" where
  "cannot_add_message count totalProducts =
     ''Cannot add '' @ show_int count @ '' products. Only '' @ show_int totalProducts
       @ '' products available.''"

definition addRandomProductsToCart ::
  "int \<Rightarrow> real list \<Rightarrow> page \<Rightarrow> (error + product list) option \<times> page" where
  "addRandomProductsToCart count rs s =
     (case getProductCount s of
        (Inl e, s') \<Rightarrow> (Some (Inl e), s')
      | (Inr totalProducts, s') \<Rightarrow>
          if count > totalProducts
          then (Some (Inl (Error (cannot_add_message count totalProducts))), s')
          else (case generateRandomUniqueIndices totalProducts count rs of
                  None \<Rightarrow> (None, s')
                | Some randomIndices \<Rightarrow>
                    (case addProducts_loop randomIndices [] s' of
                       (r, s'') \<Rightarrow> (Some r, s''))))"

subsection \<open>Cart badge and visibility probes\<close>

definition is_digit :: "char \<Rightarrow> bool" where
  "is_digit c = (c \<in> set ''0123456789'')"

definition digits_value :: "string \<Rightarrow> nat" where
  "digits_value ds = foldl (\<lambda>acc c. 10 * acc + (of_char c - 48)) 0 ds"

text \<open>
  \<open>parseInt(str, 10)\<close>: leading white space is skipped, one sign is read, then the
  longest run of decimal digits; no digit there is \<open>NaN\<close>. The integer read is returned
  as it is (binary64 holds every integer below \<open>2^53\<close>).
\<close>

definition parseInt :: "string \<Rightarrow> number" where
  "parseInt str =
     (let S = dropWhile is_space str;
          sign = (case S of c # _ \<Rightarrow> if c = CHR ''-'' then - 1 else 1 | [] \<Rightarrow> (1::int));
          S' = (case S of c # r \<Rightarrow> if c = CHR ''+'' \<or> c = CHR ''-'' then r else S | [] \<Rightarrow> S);
          Z = takeWhile is_digit S'
      in if Z = [] then NaN else Num (of_int (sign * int (digits_value Z))))"


definition getCartCount :: "number io" where
  "getCartCount s =
     (case innerText (shopping_cart_badge s) s of
        (Inr badgeText, s') \<Rightarrow> resolve (parseInt badgeText) s'
      | (Inl _, s') \<Rightarrow> resolve (Num 0) s')"

definition isCartBadgeVisible :: "bool io" where
  "isCartBadgeVisible s = isVisible (shopping_cart_badge s) s"

definition getCartBadgeCount :: "number io" where
  "getCartBadgeCount s =
     (case innerText (shopping_cart_badge s) s of
        (Inr badgeText, s') \<Rightarrow> resolve (parseInt badgeText) s'
      | (Inl _, s') \<Rightarrow> resolve (Num 0) s')"

definition isPonyExpressImageVisible :: "bool io" where
  "isPonyExpressImageVisible s = isVisible (pony_express s) s"

subsection \<open>CartPage: removing items\<close>

definition getCartItemCount :: "int io" where
  "getCartItemCount s = resolve (int (length (cart_items s))) s"

text \<open>
  \<open>removeButtons.nth(index).click()\<close>: every row has one remove button, and the shop
  deletes the row of the clicked button.
\<close>

definition removeItemByIndex :: "int \<Rightarrow> unit io" where
  "removeItemByIndex index s =
     (case nth_index (length (cart_items s)) index of
        Some j \<Rightarrow> resolve () (s\<lparr>cart_items := take j (cart_items s) @ drop (Suc j) (cart_items s)\<rparr>)
      | None \<Rightarrow> reject TimeoutError s)"

function clearCart :: "unit io" where
  "clearCart s =
     (case getCartItemCount s of
        (Inl e, s') \<Rightarrow> (Inl e, s')
      | (Inr itemCount, s') \<Rightarrow>
          if itemCount > 0
          then (case removeItemByIndex 0 s' of
                  (Inl e, s'') \<Rightarrow> (Inl e, s'')
                | (Inr _, s'') \<Rightarrow> clearCart s'')
          else (Inr (), s'))"
  by pat_completeness auto
termination
  by (relation "measure (\<lambda>s. length (cart_items s))")
     (auto simp: getCartItemCount_def removeItemByIndex_def nth_index_def resolve_def reject_def
           split: if_splits)

declare clearCart.simps [simp del]

text \<open>
  The removal loop of \<open>test.beforeEach\<close> in the checkout suite:
  \<open>for (let i = 0; i < itemsInCart; i++) await pm.cartPage.removeItemByIndex(i)\<close>.
\<close>

function removeItems_loop :: "int \<Rightarrow> int \<Rightarrow> unit io" where
  "removeItems_loop i itemsInCart s =
     (if i < itemsInCart
      then (case removeItemByIndex i s of
              (Inl e, s') \<Rightarrow> (Inl e, s')
            | (Inr _, s') \<Rightarrow> removeItems_loop (i + 1) itemsInCart s')
      else (Inr (), s))"
  by pat_completeness auto
termination
  by (relation "measure (\<lambda>(i, itemsInCart, s). nat (itemsInCart - i))") auto

declare removeItems_loop.simps [simp del]

text \<open>
  The cleanup of \<open>test.beforeEach\<close>: read the number of rows, then remove. The
  navigations before and after it (\<open>open\<close>, \<open>goToCart\<close>, \<open>waitForURL\<close>) change the screen and not
  the cart, and are left out.
\<close>

definition beforeEach_cleanup :: "unit io" where
  "beforeEach_cleanup =
     await getCartItemCount (\<lambda>itemsInCart.
       if itemsInCart > 0 then removeItems_loop 0 itemsInCart else resolve ())"

subsection \<open>CheckoutStepTwoPage: price labels\<close>

text \<open>
  \<open>str.match(/\$(\d+\.?\d*)/)\<close>. \<open>match_here\<close> is the match that starts at the first
  character, as its capture group: every quantifier is greedy and each of them
  succeeds on what it is given, so no backtracking takes place. \<open>match_currency\<close> tries
  the start positions from left to right.
\<close>

definition match_here :: "string \<Rightarrow> string option" where
  "match_here str =
     (case str of
        [] \<Rightarrow> None
      | c # rest \<Rightarrow>
          if c \<noteq> CHR ''$'' then None
          else
            (let ds = takeWhile is_digit rest; rest' = dropWhile is_digit rest
             in if ds = [] then None
                else (case rest' of
                        [] \<Rightarrow> Some ds
                      | d # rest'' \<Rightarrow>
                          if d = CHR ''.'' then Some (ds @ d # takeWhile is_digit rest'')
                          else Some ds)))"

fun match_currency :: "string \<Rightarrow> string option" where
  "match_currency [] = None"
| "match_currency (c # cs) =
     (case match_here (c # cs) of
        Some m1 \<Rightarrow> Some m1
      | None \<Rightarrow> match_currency cs)"

text \<open>
  \<open>parseFloat\<close> on a text without white space, sign or exponent, as the capture group
  is: the digits, a dot, the digits after it, and the number nearest to that decimal.
\<close>

definition parseFloat :: "binary64 \<Rightarrow> string \<Rightarrow> number" where
  "parseFloat fp str =
     (let ip = takeWhile is_digit str;
          fr = (case dropWhile is_digit str of
                  [] \<Rightarrow> []
                | c # r \<Rightarrow> if c = CHR ''.'' then takeWhile is_digit r else [])
      in if ip = [] \<and> fr = [] then NaN
         else Num (fp_nearest fp
                (of_nat (digits_value ip) + of_nat (digits_value fr) / 10 ^ length fr)))"

definition getSubtotal :: "binary64 \<Rightarrow> number io" where
  "getSubtotal fp s =
     await (innerText (summary_subtotal_label s)) (\<lambda>subtotalText.
       resolve (case match_currency subtotalText of
                  Some m1 \<Rightarrow> parseFloat fp m1
                | None \<Rightarrow> Num 0)) s"

definition getTax :: "binary64 \<Rightarrow> number io" where
  "getTax fp s =
     await (innerText (summary_tax_label s)) (\<lambda>taxText.
       resolve (case match_currency taxText of
                  Some m1 \<Rightarrow> parseFloat fp m1
                | None \<Rightarrow> Num 0)) s"

definition getTotal :: "binary64 \<Rightarrow> number io" where
  "getTotal fp s =
     await (innerText (summary_total_label s)) (\<lambda>totalText.
       resolve (case match_currency totalText of
                  Some m1 \<Rightarrow> parseFloat fp m1
                | None \<Rightarrow> Num 0)) s"




record price_summary =
  subtotal :: number
  tax :: number
  total :: number



text \<open>Rounding to two decimal places: the nearest multiple of 0.01, the larger of two.\<close>

definition round2 :: "real \<Rightarrow> real" where
  "round2 x = of_int \<lfloor>x * 100 + 1 / 2\<rfloor> / 100"

text \<open>
  The pattern in words: a text is a currency decimal when it is a non-empty run of
  digits, or such a run, a dot and a run of digits. A match of the pattern in \<open>str\<close>
  at position \<open>i\<close> is a \<open>$\<close> there, followed by a currency decimal.
\<close>

definition currency_decimal :: "string \<Rightarrow> bool" where
  "currency_decimal m =
     (\<exists>ds fs. ds \<noteq> [] \<and> list_all is_digit ds \<and> list_all is_digit fs
         \<and> (m = ds \<or> m = ds @ CHR ''.'' # fs))"

definition matches_at :: "string \<Rightarrow> nat \<Rightarrow> string \<Rightarrow> bool" where
  "matches_at str i m =
     (i < length str \<and> str ! i = CHR ''$'' \<and> take (length m) (drop (Suc i) str) = m
        \<and> currency_decimal m)"

text \<open>
  The number a currency decimal denotes (the one nearest to its value), and what a
  price getter has to return for a label text: the number of the leftmost match, the
  longest one at its position, and \<open>0\<close> when the pattern matches nowhere.
\<close>

definition denotes :: "binary64 \<Rightarrow> string \<Rightarrow> number \<Rightarrow> bool" where
  "denotes fp m v =
     (\<exists>ds fs. ds \<noteq> [] \<and> list_all is_digit ds \<and> list_all is_digit fs
        \<and> (m = ds \<and> fs = [] \<or> m = ds @ CHR ''.'' # fs)
        \<and> v = Num (fp_nearest fp
                    (of_nat (digits_value ds) + of_nat (digits_value fs) / 10 ^ length fs)))"

definition extracts_currency :: "binary64 \<Rightarrow> string \<Rightarrow> number \<Rightarrow> bool" where
  "extracts_currency fp str v =
     (if \<exists>i m. matches_at str i m
      then \<exists>i m. matches_at str i m
             \<and> (\<forall>j m'. matches_at str j m' \<longrightarrow> i \<le> j \<and> (j = i \<longrightarrow> length m' \<le> length m))
             \<and> denotes fp m v
      else v = Num 0)"

subsection \<open>Waiting for a navigation\<close>

text \<open>
  What the engine sees while it waits: for a URL pattern, the time in milliseconds
  after which the page's URL matches it (no entry: it never does), and the engine's
  default navigation timeout. \<open>page.waitForURL(pattern, { timeout })\<close> resolves when the
  URL matches within the bound and rejects otherwise; the bound is the \<open>timeout\<close>
  option, or the default when the call passes none, and \<open>0\<close> is no bound at all. The
  outer \<open>None\<close> is a wait that never ends.
\<close>

record navigation =
  default_timeout :: nat
  url_matches_after :: "(string \<times> nat) list"

definition waitForURL :: "string \<Rightarrow> nat option \<Rightarrow> navigation \<Rightarrow> (error + unit) option" where
  "waitForURL pattern timeout nav =
     (let bound = (case timeout of Some t \<Rightarrow> t | None \<Rightarrow> default_timeout nav)
      in case map_of (url_matches_after nav) pattern of
           None \<Rightarrow> if bound = 0 then None else Some (Inl TimeoutError)
         | Some t \<Rightarrow> if bound = 0 \<or> t \<le> bound then Some (Inr ()) else Some (Inl TimeoutError))"

definition LoginPage_waitForInventoryPage :: "navigation \<Rightarrow> (error + unit) option" where
  "LoginPage_waitForInventoryPage nav = waitForURL ''.*inventory.html'' None nav"

definition CheckoutStepOnePage_waitForPageLoad :: "navigation \<Rightarrow> (error + unit) option" where
  "CheckoutStepOnePage_waitForPageLoad nav =
     waitForURL ''.*checkout-step-one.html'' (Some 10000) nav"

definition CheckoutStepTwoPage_waitForCheckoutComplete :: "navigation \<Rightarrow> (error + unit) option" where
  "CheckoutStepTwoPage_waitForCheckoutComplete nav =
     waitForURL ''.*checkout-complete.html'' (Some 10000) nav"

definition CheckoutCompletePage_waitForInventoryPage :: "navigation \<Rightarrow> (error + unit) option" where
  "CheckoutCompletePage_waitForInventoryPage nav =
     waitForURL ''.*inventory.html'' (Some 10000) nav"

text \<open>The URL has not matched the pattern after 10 seconds.\<close>

definition exceeds_10s :: "navigation \<Rightarrow> string \<Rightarrow> bool" where
  "exceeds_10s nav pattern =
     (case map_of (url_matches_after nav) pattern of None \<Rightarrow> True | Some t \<Rightarrow> 10000 < t)"

subsection \<open>Example inputs\<close>

definition exact_arithmetic :: binary64 where
  "exact_arithmetic = \<lparr>fp_nearest = (\<lambda>x. x), fp_add = (+), fp_toString = (\<lambda>x. ''1e+21'')\<rparr>"

definition blank_page :: page where
  "blank_page =
     \<lparr>inventory_items = [], cart_items = [], shopping_cart_badge = None, pony_express = None,
      summary_subtotal_label = None, summary_tax_label = None, summary_total_label = None\<rparr>"

definition shop_page :: page where
  "shop_page = blank_page
     \<lparr>inventory_items :=
        [\<lparr>name = ''Sauce Labs Backpack'', price = ''$29.99''\<rparr>,
         \<lparr>name = ''Sauce Labs Bike Light'', price = ''$9.99''\<rparr>,
         \<lparr>name = ''Sauce Labs Bolt T-Shirt'', price = ''$15.99''\<rparr>]\<rparr>"

definition two_in_cart :: page where
  "two_in_cart = shop_page\<lparr>cart_items := [''sauce-labs-backpack'', ''sauce-labs-bike-light'']\<rparr>"


definition overview_page :: "string \<Rightarrow> string \<Rightarrow> string \<Rightarrow> page" where
  "overview_page subtotalText taxText totalText = blank_page
     \<lparr>summary_subtotal_label := Some \<lparr>inner_text = subtotalText, visible = True\<rparr>,
      summary_tax_label := Some \<lparr>inner_text = taxText, visible = True\<rparr>,
      summary_total_label := Some \<lparr>inner_text = totalText, visible = True\<rparr>\<rparr>"

definition slow_navigation :: navigation where
  "slow_navigation = \<lparr>default_timeout = 30000, url_matches_after = [(''.*inventory.html'', 20000)]\<rparr>"

section \<open>Properties\<close>

subsection \<open>The sampling loop\<close>






lemma loop_more_draws:
  assumes "generateRandomUniqueIndices_loop mx count indices rs = Some res"
  shows "generateRandomUniqueIndices_loop mx count indices (rs @ rs2) = Some res"
  using assms
proof (induction rs arbitrary: indices)
  case Nil
  then show ?case
    by (simp add: generateRandomUniqueIndices_loop.simps [of mx count indices "[]"]
        generateRandomUniqueIndices_loop.simps [of mx count indices "rs2"] split: if_splits)
next
  case (Cons u rs)
  then show ?case
    by (simp add: generateRandomUniqueIndices_loop.simps [of mx count indices "u # rs"]
        generateRandomUniqueIndices_loop.simps [of mx count indices "u # rs @ rs2"] Let_def split: if_splits)
qed








lemma sweep_unit: "0 < mx \<Longrightarrow> unit_draws (sweep mx)"
  by (auto simp: sweep_def unit_draws_def list_all_iff)

lemma sweep_floor:
  assumes "0 < mx"
  shows "\<lfloor>(of_nat j / of_int mx :: real) * of_int mx\<rfloor> = int j"
  using assms by simp



lemma unit_draws_append: "unit_draws (rs @ rs2) = (unit_draws rs \<and> unit_draws rs2)"
  by (simp add: unit_draws_def)


subsection \<open>Adding the selected products\<close>




lemma addRandom_too_many:
  assumes "int (length (inventory_items s)) < k"
  shows "addRandomProductsToCart k rs s =
     (Some (Inl (Error (cannot_add_message k (int (length (inventory_items s)))))), s)"
  using assms by (simp add: addRandomProductsToCart_def getProductCount_def resolve_def)

subsection \<open>Claims on the random selection\<close>






text \<open>
  Claim C2. For a count \<open>k\<close> above the number of products, \<open>addRandomProductsToCart(k)\<close>
  throws an \<open>Error\<close> whose message names both numbers, whatever the draws would be, and
  the page, with its cart, is as it was: no add action has taken place.
\<close>

theorem addRandomProductsToCart_too_many_fails_fast:
  assumes "int (length (inventory_items s)) < k"
  shows "addRandomProductsToCart k rs s =
     (Some (Inl (Error (''Cannot add '' @ show_int k @ '' products. Only ''
                          @ show_int (int (length (inventory_items s)))
                          @ '' products available.''))), s)"
  using addRandom_too_many [OF assms] by (simp add: cannot_add_message_def)

theorem addRandomProductsToCart_too_many_fails_fast_witness:
  "int (length (inventory_items shop_page)) < 4
     \<and> addRandomProductsToCart 4 [1/2, 1/2, 1/10] shop_page =
         (Some (Inl (Error ''Cannot add 4 products. Only 3 products available.'')), shop_page)"
proof -
  have h: "int (length (inventory_items shop_page)) < 4"
    by (simp add: shop_page_def blank_page_def)
  have n: "int (length (inventory_items shop_page)) = 3"
    by (simp add: shop_page_def blank_page_def)
  show ?thesis
    using h addRandomProductsToCart_too_many_fails_fast [OF h, of "[1/2, 1/2, 1/10]"]
    by (simp add: n show_int_def show_nat.simps)
qed

subsection \<open>Clearing the cart\<close>

lemma removeItemByIndex_ok:
  assumes "0 \<le> i" "i < int (length (cart_items s))"
  shows "removeItemByIndex i s =
           (Inr (), s\<lparr>cart_items := take (nat i) (cart_items s) @ drop (Suc (nat i)) (cart_items s)\<rparr>)"
  using assms by (simp add: removeItemByIndex_def nth_index_def resolve_def)

lemma removeItemByIndex_timeout:
  assumes "0 \<le> i" "int (length (cart_items s)) \<le> i"
  shows "removeItemByIndex i s = (Inl TimeoutError, s)"
  using assms by (simp add: removeItemByIndex_def nth_index_def reject_def)

lemma clearCart_empties: "clearCart s = (Inr (), s\<lparr>cart_items := []\<rparr>)"
proof (induction "length (cart_items s)" arbitrary: s)
  case 0
  then show ?case
    by (simp add: clearCart.simps [of s] getCartItemCount_def resolve_def)
next
  case (Suc n)
  let ?s' = "s\<lparr>cart_items := drop (Suc 0) (cart_items s)\<rparr>"
  have "0 < int (length (cart_items s))" using Suc(2) [symmetric] by simp
  then have r: "removeItemByIndex 0 s = (Inr (), ?s')"
    using removeItemByIndex_ok [of 0 s] by simp
  have "n = length (cart_items ?s')" using Suc(2) by simp
  from Suc(1) [OF this] show ?case
    using Suc(2) by (simp add: clearCart.simps [of s] getCartItemCount_def resolve_def r)
qed

lemma removeItems_loop_outcome:
  assumes "0 \<le> i" "i \<le> n" "int (length (cart_items s)) = n - i"
  shows "int (length (cart_items (snd (removeItems_loop i n s))))
           = (if n \<le> 2 * i then n - i else n div 2)
       \<and> (fst (removeItems_loop i n s) = Inr () \<longleftrightarrow> n \<le> 1 \<or> i = n)
       \<and> (fst (removeItems_loop i n s) \<noteq> Inr () \<longrightarrow> fst (removeItems_loop i n s) = Inl TimeoutError)"
  using assms
proof (induction i n s rule: removeItems_loop.induct)
  case (1 i n s)
  show ?case
  proof (cases "i < n")
    case False
    then have "removeItems_loop i n s = (Inr (), s)"
      by (simp add: removeItems_loop.simps [of i n s])
    then show ?thesis using False "1.prems" by simp
  next
    case lt: True
    show ?thesis
    proof (cases "i < int (length (cart_items s))")
      case False
      then have "removeItemByIndex i s = (Inl TimeoutError, s)"
        using "1.prems" by (intro removeItemByIndex_timeout) simp_all
      then show ?thesis
        using lt False "1.prems" by (simp add: removeItems_loop.simps [of i n s])
    next
      case True
      let ?s' = "s\<lparr>cart_items := take (nat i) (cart_items s) @ drop (Suc (nat i)) (cart_items s)\<rparr>"
      have r: "removeItemByIndex i s = (Inr (), ?s')"
        using True "1.prems" by (intro removeItemByIndex_ok) simp_all
      have len: "int (length (cart_items ?s')) = n - (i + 1)"
        using True "1.prems" by (simp add: min_def)
      have unf: "removeItems_loop i n s = removeItems_loop (i + 1) n ?s'"
        using lt by (simp add: removeItems_loop.simps [of i n s] r)
      have IH: "int (length (cart_items (snd (removeItems_loop (i + 1) n ?s'))))
           = (if n \<le> 2 * (i + 1) then n - (i + 1) else n div 2)
       \<and> (fst (removeItems_loop (i + 1) n ?s') = Inr () \<longleftrightarrow> n \<le> 1 \<or> i + 1 = n)
       \<and> (fst (removeItems_loop (i + 1) n ?s') \<noteq> Inr () \<longrightarrow> fst (removeItems_loop (i + 1) n ?s') = Inl TimeoutError)"
        using "1.IH" [OF lt r [symmetric] refl] "1.prems" lt len by simp
      have two: "2 * i < n" using True "1.prems" by linarith
      have a: "(if n \<le> 2 * (i + 1) then n - (i + 1) else n div 2) = n div 2"
        using two by auto
      have b: "(n \<le> 1 \<or> i + 1 = n) \<longleftrightarrow> (n \<le> 1 \<or> i = n)"
        using two lt "1.prems" by auto
      show ?thesis
        using IH two unfolding unf a b by simp
    qed
  qed
qed

lemma beforeEach_cleanup_outcome:
  "length (cart_items (snd (beforeEach_cleanup s))) = length (cart_items s) div 2
   \<and> (fst (beforeEach_cleanup s) = (if length (cart_items s) \<le> 1 then Inr () else Inl TimeoutError))"
proof (cases "cart_items s = []")
  case True
  then show ?thesis
    by (simp add: beforeEach_cleanup_def await_def getCartItemCount_def resolve_def)
next
  case False
  let ?n = "int (length (cart_items s))"
  have eq: "beforeEach_cleanup s = removeItems_loop 0 ?n s"
    using False by (simp add: beforeEach_cleanup_def await_def getCartItemCount_def resolve_def)
  have pos: "0 < ?n" using False by simp
  from removeItems_loop_outcome [of 0 ?n s] pos
  have o: "int (length (cart_items (snd (removeItems_loop 0 ?n s)))) = ?n div 2"
    "fst (removeItems_loop 0 ?n s) = Inr () \<longleftrightarrow> ?n \<le> 1"
    "fst (removeItems_loop 0 ?n s) \<noteq> Inr () \<longrightarrow> fst (removeItems_loop 0 ?n s) = Inl TimeoutError"
    by simp_all
  have "length (cart_items (snd (removeItems_loop 0 ?n s))) = length (cart_items s) div 2"
    using o(1) by (metis nat_int of_nat_numeral zdiv_int)
  moreover have "fst (removeItems_loop 0 ?n s) = (if length (cart_items s) \<le> 1 then Inr () else Inl TimeoutError)"
    using o(2,3) by auto
  ultimately show ?thesis by (simp add: eq)
qed

text \<open>
  Claim C3. The cleanup of \<open>test.beforeEach\<close> is to leave the cart empty whatever it
  held. On a cart of two items it does not: the first removal shifts the remaining row
  to position 0, the loop then clicks position 1, and the engine times out with one
  item still in the cart. In general \<open>n\<close> items leave \<open>n div 2\<close>
  (\<open>beforeEach_cleanup_outcome\<close>). \<open>clearCart\<close>, which always removes position 0 and reads
  the count again, does empty the same cart (\<open>clearCart_empties\<close>).
\<close>

theorem beforeEach_cleanup_leaves_item:
  "beforeEach_cleanup two_in_cart =
     (Inl TimeoutError, two_in_cart\<lparr>cart_items := [''sauce-labs-bike-light'']\<rparr>)
   \<and> clearCart two_in_cart = (Inr (), two_in_cart\<lparr>cart_items := []\<rparr>)"
  by (simp add: clearCart_empties)
     (simp add: beforeEach_cleanup_def await_def getCartItemCount_def resolve_def reject_def
      two_in_cart_def removeItems_loop.simps removeItemByIndex_def nth_index_def)

subsection \<open>The currency pattern\<close>

lemma take_prefix_iff: "take (length m) ys = m \<longleftrightarrow> (\<exists>post. ys = m @ post)"
  by (metis append_eq_conv_conj append_take_drop_id)

lemma dot_not_digit: "\<not> is_digit (CHR ''.'')"
  by (simp add: is_digit_def)

lemma digits_takeWhile: "list_all is_digit (takeWhile is_digit xs)"
  by (induction xs) auto

lemma digits_prefix_le:
  assumes "list_all is_digit xs"
  shows "length xs \<le> length (takeWhile is_digit (xs @ post))"
  using assms by (simp add: takeWhile_append2 list_all_iff)

lemma matches_at_0:
  "matches_at str 0 m \<longleftrightarrow> (\<exists>post. str = CHR ''$'' # m @ post) \<and> currency_decimal m"
proof (cases str)
  case Nil
  then show ?thesis by (simp add: matches_at_def)
next
  case (Cons c rest)
  then show ?thesis
    by (auto simp: matches_at_def take_prefix_iff)
qed

lemma matches_at_Suc: "matches_at (c # cs) (Suc i) m = matches_at cs i m"
  by (simp add: matches_at_def)

lemma currency_decimal_starts:
  assumes "currency_decimal m"
  obtains d r where "m = d # r" "is_digit d"
proof -
  from assms obtain ds fs where d: "ds \<noteq> []" "list_all is_digit ds"
    "m = ds \<or> m = ds @ CHR ''.'' # fs"
    unfolding currency_decimal_def by blast
  then obtain d r where "ds = d # r" "is_digit d" by (cases ds) auto
  with d(3) that show thesis by auto
qed

lemma match_here_None:
  assumes "match_here str = None"
  shows "\<not> matches_at str 0 m"
proof
  assume "matches_at str 0 m"
  then obtain post where str: "str = CHR ''$'' # m @ post" and cd: "currency_decimal m"
    by (auto simp: matches_at_0)
  from cd obtain d r where m: "m = d # r" "is_digit d" by (rule currency_decimal_starts)
  have "takeWhile is_digit (m @ post) \<noteq> []" using m by simp
  then have "match_here str \<noteq> None"
    unfolding str by (simp add: match_here_def Let_def split: list.split)
  with assms show False by simp
qed

lemma match_here_Some:
  assumes "match_here str = Some m"
  shows "matches_at str 0 m \<and> (\<forall>m'. matches_at str 0 m' \<longrightarrow> length m' \<le> length m)"
proof -
  from assms obtain rest where str: "str = CHR ''$'' # rest"
    by (cases str) (auto simp: match_here_def split: if_splits)
  let ?ds = "takeWhile is_digit rest"
  let ?rest' = "dropWhile is_digit rest"
  have ds: "?ds \<noteq> []"
    using assms unfolding str by (auto simp: match_here_def Let_def split: if_splits)
  have rest: "rest = ?ds @ ?rest'" by simp
  have dsd: "list_all is_digit ?ds" by (rule digits_takeWhile)
  consider (plain) "m = ?ds" "?rest' = [] \<or> hd ?rest' \<noteq> CHR ''.''"
    | (dot) rest'' where "?rest' = CHR ''.'' # rest''" "m = ?ds @ CHR ''.'' # takeWhile is_digit rest''"
    using assms ds unfolding str
    by (cases ?rest') (auto simp: match_here_def Let_def split: if_splits)
  then show ?thesis
  proof cases
    case plain
    have "\<exists>post. str = CHR ''$'' # m @ post"
      unfolding str plain(1) using rest by (metis)
    moreover have "currency_decimal m"
      unfolding currency_decimal_def plain(1) using ds dsd by (intro exI [of _ ?ds] exI [of _ "[]"]) simp
    moreover have "length m' \<le> length m" if "matches_at str 0 m'" for m'
    proof -
      from that obtain post' where r': "rest = m' @ post'" and cd: "currency_decimal m'"
        by (auto simp: matches_at_0 str)
      from cd obtain ds' fs' where d': "ds' \<noteq> []" "list_all is_digit ds'" "list_all is_digit fs'"
        "m' = ds' \<or> m' = ds' @ CHR ''.'' # fs'"
        unfolding currency_decimal_def by blast
      from d'(4) show ?thesis
      proof
        assume "m' = ds'"
        then show ?thesis using digits_prefix_le [OF d'(2), of post'] r' plain(1) by simp
      next
        assume m': "m' = ds' @ CHR ''.'' # fs'"
        then have r2: "rest = ds' @ CHR ''.'' # fs' @ post'" using r' by simp
        have "?rest' = CHR ''.'' # fs' @ post'"
          unfolding r2 using d'(2) dot_not_digit by (simp add: dropWhile_append2 list_all_iff)
        with plain(2) show ?thesis by simp
      qed
    qed
    ultimately show ?thesis by (simp add: matches_at_0)
  next
    case dot
    let ?fs = "takeWhile is_digit rest''"
    have "rest = m @ dropWhile is_digit rest''"
      using rest dot by (metis append.assoc append_Cons takeWhile_dropWhile_id)
    then have "\<exists>post. str = CHR ''$'' # m @ post" unfolding str by blast
    moreover have "currency_decimal m"
      unfolding currency_decimal_def dot(2) using ds dsd digits_takeWhile [of rest'']
      by (intro exI [of _ ?ds] exI [of _ ?fs]) simp
    moreover have "length m' \<le> length m" if "matches_at str 0 m'" for m'
    proof -
      from that obtain post' where r': "rest = m' @ post'" and cd: "currency_decimal m'"
        by (auto simp: matches_at_0 str)
      from cd obtain ds' fs' where d': "ds' \<noteq> []" "list_all is_digit ds'" "list_all is_digit fs'"
        "m' = ds' \<or> m' = ds' @ CHR ''.'' # fs'"
        unfolding currency_decimal_def by blast
      from d'(4) show ?thesis
      proof
        assume "m' = ds'"
        then show ?thesis using digits_prefix_le [OF d'(2), of post'] r' dot(2) by simp
      next
        assume m': "m' = ds' @ CHR ''.'' # fs'"
        then have r2: "rest = ds' @ CHR ''.'' # fs' @ post'" using r' by simp
        have a: "?ds = ds'"
          unfolding r2 using d'(2) dot_not_digit by (simp add: takeWhile_append2 list_all_iff)
        have "?rest' = CHR ''.'' # fs' @ post'"
          unfolding r2 using d'(2) dot_not_digit by (simp add: dropWhile_append2 list_all_iff)
        then have b: "rest'' = fs' @ post'" using dot(1) by simp
        have "length fs' \<le> length ?fs"
          unfolding b by (rule digits_prefix_le [OF d'(3)])
        then show ?thesis unfolding m' dot(2) a by simp
      qed
    qed
    ultimately show ?thesis by (simp add: matches_at_0)
  qed
qed

lemma match_currency_None:
  "match_currency str = None \<longleftrightarrow> (\<forall>i m. \<not> matches_at str i m)"
proof (induction str)
  case Nil
  then show ?case by (simp add: matches_at_def)
next
  case (Cons c cs)
  show ?case
  proof (cases "match_here (c # cs)")
    case None
    have "(\<forall>i m. \<not> matches_at (c # cs) i m) \<longleftrightarrow> (\<forall>i m. \<not> matches_at cs i m)"
    proof
      assume a: "\<forall>i m. \<not> matches_at (c # cs) i m"
      show "\<forall>i m. \<not> matches_at cs i m"
        using a matches_at_Suc [of c cs] by blast
    next
      assume a: "\<forall>i m. \<not> matches_at cs i m"
      show "\<forall>i m. \<not> matches_at (c # cs) i m"
      proof (intro allI)
        fix i m show "\<not> matches_at (c # cs) i m"
          using a match_here_None [OF None] matches_at_Suc [of c cs] by (cases i) auto
      qed
    qed
    with None Cons.IH show ?thesis by simp
  next
    case (Some m)
    then show ?thesis using match_here_Some [OF Some] by auto
  qed
qed

lemma match_currency_Some:
  assumes "match_currency str = Some m"
  shows "\<exists>i. matches_at str i m
           \<and> (\<forall>j m'. matches_at str j m' \<longrightarrow> i \<le> j \<and> (j = i \<longrightarrow> length m' \<le> length m))"
  using assms
proof (induction str)
  case Nil
  then show ?case by simp
next
  case (Cons c cs)
  show ?case
  proof (cases "match_here (c # cs)")
    case None
    then have "match_currency cs = Some m" using Cons.prems by simp
    from Cons.IH [OF this] obtain i where i: "matches_at cs i m"
      "\<forall>j m'. matches_at cs j m' \<longrightarrow> i \<le> j \<and> (j = i \<longrightarrow> length m' \<le> length m)" by blast
    have "matches_at (c # cs) (Suc i) m" using i(1) by (simp add: matches_at_Suc)
    moreover have "Suc i \<le> j \<and> (j = Suc i \<longrightarrow> length m' \<le> length m)"
      if "matches_at (c # cs) j m'" for j m'
    proof (cases j)
      case 0
      then show ?thesis using that match_here_None [OF None] by simp
    next
      case (Suc j')
      then show ?thesis using that i(2) by (auto simp: matches_at_Suc)
    qed
    ultimately show ?thesis by blast
  next
    case (Some m0)
    then have "m0 = m" using Cons.prems by simp
    with match_here_Some [OF Some] show ?thesis
      by (intro exI [of _ 0]) auto
  qed
qed

lemma parseFloat_digits:
  assumes "ds \<noteq> []" "list_all is_digit ds" "list_all is_digit fs"
  shows "parseFloat fp ds = Num (fp_nearest fp (of_nat (digits_value ds)))"
    and "parseFloat fp (ds @ CHR ''.'' # fs)
           = Num (fp_nearest fp
                (of_nat (digits_value ds) + of_nat (digits_value fs) / 10 ^ length fs))"
proof -
  have t1: "takeWhile is_digit ds = ds" "dropWhile is_digit ds = []"
    using assms(2) by (simp_all add: list_all_iff)
  show "parseFloat fp ds = Num (fp_nearest fp (of_nat (digits_value ds)))"
    using assms(1) by (simp add: parseFloat_def t1 digits_value_def)
  have t2: "takeWhile is_digit (ds @ CHR ''.'' # fs) = ds"
    "dropWhile is_digit (ds @ CHR ''.'' # fs) = CHR ''.'' # fs"
    using assms(2) dot_not_digit by (simp_all add: takeWhile_append2 dropWhile_append2 list_all_iff)
  have t3: "takeWhile is_digit fs = fs" using assms(3) by (simp add: list_all_iff)
  show "parseFloat fp (ds @ CHR ''.'' # fs)
           = Num (fp_nearest fp
                (of_nat (digits_value ds) + of_nat (digits_value fs) / 10 ^ length fs))"
    using assms(1) by (simp add: parseFloat_def t2 t3)
qed

lemma parseFloat_currency_decimal:
  assumes "currency_decimal m"
  shows "parseFloat fp m \<noteq> NaN"
  using assms parseFloat_digits unfolding currency_decimal_def by (metis number.distinct(1))

lemma parseFloat_denotes:
  assumes "currency_decimal m"
  shows "denotes fp m (parseFloat fp m)"
proof -
  from assms obtain ds fs where d: "ds \<noteq> []" "list_all is_digit ds" "list_all is_digit fs"
    "m = ds \<or> m = ds @ CHR ''.'' # fs"
    unfolding currency_decimal_def by blast
  from d(4) show ?thesis
  proof
    assume m: "m = ds"
    have "parseFloat fp m = Num (fp_nearest fp
        (of_nat (digits_value ds) + of_nat (digits_value []) / 10 ^ length ([]::string)))"
      unfolding m using parseFloat_digits(1) [OF d(1,2,3)] by (simp add: digits_value_def)
    then show ?thesis
      unfolding denotes_def using d(1,2) m by (intro exI [of _ ds] exI [of _ "[]"]) simp
  next
    assume m: "m = ds @ CHR ''.'' # fs"
    show ?thesis
      unfolding denotes_def m using d(1,2,3) parseFloat_digits(2) [OF d(1,2,3)]
      by (intro exI [of _ ds] exI [of _ fs]) simp
  qed
qed

lemma currency_number:
  "extracts_currency fp str
     (case match_currency str of Some m1 \<Rightarrow> parseFloat fp m1 | None \<Rightarrow> Num 0)"
proof (cases "match_currency str")
  case None
  then show ?thesis
    using match_currency_None [of str] by (simp add: extracts_currency_def)
next
  case (Some m)
  from match_currency_Some [OF Some] obtain i where i: "matches_at str i m"
    "\<forall>j m'. matches_at str j m' \<longrightarrow> i \<le> j \<and> (j = i \<longrightarrow> length m' \<le> length m)" by blast
  have "denotes fp m (parseFloat fp m)"
    using i(1) by (intro parseFloat_denotes) (simp add: matches_at_def)
  with i have "\<exists>i m'. matches_at str i m'
             \<and> (\<forall>j m''. matches_at str j m'' \<longrightarrow> i \<le> j \<and> (j = i \<longrightarrow> length m'' \<le> length m'))
             \<and> denotes fp m' (parseFloat fp m)"
    by blast
  then show ?thesis
    using Some i(1) unfolding extracts_currency_def by auto
qed

text \<open>
  Claim C5. For rendered labels, \<open>getSubtotal\<close>, \<open>getTax\<close> and \<open>getTotal\<close> do not throw and
  leave the page as it is; each returns the floating-point number nearest to the decimal
  of the leftmost, longest match of "\<open>$\<close>, digits, optionally a dot and digits" in its
  label text, and \<open>0\<close> when the text has no match.
\<close>

theorem price_getters_extract_currency:
  assumes "summary_subtotal_label s = Some a"
    and "summary_tax_label s = Some b"
    and "summary_total_label s = Some c"
  shows "(\<exists>v. getSubtotal fp s = (Inr v, s) \<and> extracts_currency fp (inner_text a) v)
       \<and> (\<exists>v. getTax fp s = (Inr v, s) \<and> extracts_currency fp (inner_text b) v)
       \<and> (\<exists>v. getTotal fp s = (Inr v, s) \<and> extracts_currency fp (inner_text c) v)"
  using assms currency_number [of fp "inner_text a"] currency_number [of fp "inner_text b"]
    currency_number [of fp "inner_text c"]
  by (simp add: getSubtotal_def getTax_def getTotal_def await_def innerText_def resolve_def)

lemma overview_values:
  "getSubtotal exact_arithmetic (overview_page ''Item total: $29.99'' ''Tax: $2.40'' ''Total: n/a'')
     = (Inr (Num (2999 / 100)), overview_page ''Item total: $29.99'' ''Tax: $2.40'' ''Total: n/a'')"
  "getTax exact_arithmetic (overview_page ''Item total: $29.99'' ''Tax: $2.40'' ''Total: n/a'')
     = (Inr (Num (24 / 10)), overview_page ''Item total: $29.99'' ''Tax: $2.40'' ''Total: n/a'')"
  "getTotal exact_arithmetic (overview_page ''Item total: $29.99'' ''Tax: $2.40'' ''Total: n/a'')
     = (Inr (Num 0), overview_page ''Item total: $29.99'' ''Tax: $2.40'' ''Total: n/a'')"
  by (simp_all add: getSubtotal_def getTax_def getTotal_def await_def innerText_def resolve_def
      overview_page_def match_here_def is_digit_def parseFloat_def digits_value_def
      exact_arithmetic_def)

theorem price_getters_extract_currency_witness:
  "summary_subtotal_label (overview_page ''Item total: $29.99'' ''Tax: $2.40'' ''Total: n/a'')
     = Some \<lparr>inner_text = ''Item total: $29.99'', visible = True\<rparr>
   \<and> summary_tax_label (overview_page ''Item total: $29.99'' ''Tax: $2.40'' ''Total: n/a'')
     = Some \<lparr>inner_text = ''Tax: $2.40'', visible = True\<rparr>
   \<and> summary_total_label (overview_page ''Item total: $29.99'' ''Tax: $2.40'' ''Total: n/a'')
     = Some \<lparr>inner_text = ''Total: n/a'', visible = True\<rparr>
   \<and> extracts_currency exact_arithmetic ''Item total: $29.99'' (Num (2999 / 100))
   \<and> extracts_currency exact_arithmetic ''Tax: $2.40'' (Num (24 / 10))
   \<and> extracts_currency exact_arithmetic ''Total: n/a'' (Num 0)"
proof -
  let ?s = "overview_page ''Item total: $29.99'' ''Tax: $2.40'' ''Total: n/a''"
  have h: "summary_subtotal_label ?s = Some \<lparr>inner_text = ''Item total: $29.99'', visible = True\<rparr>"
    "summary_tax_label ?s = Some \<lparr>inner_text = ''Tax: $2.40'', visible = True\<rparr>"
    "summary_total_label ?s = Some \<lparr>inner_text = ''Total: n/a'', visible = True\<rparr>"
    by (simp_all add: overview_page_def)
  show ?thesis
    using h price_getters_extract_currency [OF h, of exact_arithmetic]
    by (simp add: overview_values)
qed

subsection \<open>The price calculation\<close>










lemma round2_nearest:
  fixes k :: int
  shows "\<bar>round2 x - x\<bar> \<le> \<bar>of_int k / 100 - x\<bar>"
    and "\<bar>of_int k / 100 - x\<bar> = \<bar>round2 x - x\<bar> \<Longrightarrow> of_int k / 100 \<le> round2 x"
proof -
  define n where "n = \<lfloor>x * 100 + 1 / 2\<rfloor>"
  define y where "y = x * 100"
  have n: "of_int n \<le> y + 1 / 2" "y + 1 / 2 < of_int n + 1"
    unfolding n_def y_def by linarith+
  have near: "\<bar>of_int n - y\<bar> \<le> 1 / 2" using n by linarith
  have below: "1 / 2 \<le> \<bar>of_int k - y\<bar>" if "k < n"
  proof -
    have "of_int k + 1 \<le> (of_int n :: real)" using that by (metis of_int_1 of_int_add of_int_le_iff zless_imp_add1_zle)
    then show ?thesis using n by linarith
  qed
  have above: "1 / 2 < \<bar>of_int k - y\<bar>" if "n < k"
  proof -
    have "of_int n + 1 \<le> (of_int k :: real)" using that by (metis of_int_1 of_int_add of_int_le_iff zless_imp_add1_zle)
    then show ?thesis using n by linarith
  qed
  have r: "round2 x - x = (of_int n - y) / 100" "of_int k / 100 - x = (of_int k - y) / 100"
    by (simp_all add: round2_def n_def y_def field_simps)
  have le: "\<bar>of_int n - y\<bar> \<le> \<bar>of_int k - y\<bar>"
  proof -
    consider "k < n" | "k = n" | "n < k" by linarith
    then show ?thesis
    proof cases
      case 1 then show ?thesis using below near by linarith
    next
      case 2 then show ?thesis by simp
    next
      case 3 then show ?thesis using above near by linarith
    qed
  qed
  show "\<bar>round2 x - x\<bar> \<le> \<bar>of_int k / 100 - x\<bar>"
    unfolding r using le by (simp add: divide_right_mono)
  show "of_int k / 100 \<le> round2 x" if t: "\<bar>of_int k / 100 - x\<bar> = \<bar>round2 x - x\<bar>"
  proof -
    have "\<bar>of_int k - y\<bar> = \<bar>of_int n - y\<bar>" using t unfolding r by simp
    then have "\<not> n < k" using above near by linarith
    then have "k \<le> n" by simp
    then have "(of_int k :: real) \<le> of_int n" by simp
    then show ?thesis by (simp add: round2_def n_def divide_right_mono)
  qed
qed





subsection \<open>Probes, the cart badge and waits\<close>

lemma isVisible_absent: "isVisible None s = (Inr False, s)"
  by (simp add: isVisible_def resolve_def)

lemma innerText_absent: "innerText None s = (Inl TimeoutError, s)"
  by (simp add: innerText_def reject_def)


text \<open>
  Claim C6. With no cart badge in the page, \<open>isCartBadgeVisible\<close> resolves to \<open>false\<close> and
  \<open>getCartCount\<close> and \<open>getCartBadgeCount\<close> resolve to \<open>0\<close>; with no pony express image,
  \<open>isPonyExpressImageVisible\<close> resolves to \<open>false\<close>. None of them throws.
\<close>

theorem absent_element_probes_do_not_throw:
  "(shopping_cart_badge s = None \<longrightarrow>
      isCartBadgeVisible s = (Inr False, s)
      \<and> getCartCount s = (Inr (Num 0), s)
      \<and> getCartBadgeCount s = (Inr (Num 0), s))
   \<and> (pony_express s = None \<longrightarrow> isPonyExpressImageVisible s = (Inr False, s))"
  by (simp add: isCartBadgeVisible_def isPonyExpressImageVisible_def getCartCount_def
      getCartBadgeCount_def isVisible_absent innerText_absent resolve_def)

theorem absent_element_probes_do_not_throw_witness:
  "shopping_cart_badge shop_page = None \<and> pony_express shop_page = None
   \<and> isCartBadgeVisible shop_page = (Inr False, shop_page)
   \<and> getCartCount shop_page = (Inr (Num 0), shop_page)
   \<and> getCartBadgeCount shop_page = (Inr (Num 0), shop_page)
   \<and> isPonyExpressImageVisible shop_page = (Inr False, shop_page)"
proof -
  have h: "shopping_cart_badge shop_page = None" "pony_express shop_page = None"
    by (simp_all add: shop_page_def blank_page_def)
  show ?thesis
    using h absent_element_probes_do_not_throw [of shop_page] by simp
qed

lemma probe_keeps_page: "snd (isVisible el s) = s"
  by (simp add: isVisible_def resolve_def split: option.split)

text \<open>
  Claim C8. On a page where the probed element is not rendered, two calls in succession
  of \<open>isPonyExpressImageVisible\<close>, or of \<open>isCartBadgeVisible\<close>, both resolve to \<open>false\<close>, and
  the page after each call is the page before it.
\<close>

theorem visibility_probe_twice:
  "(pony_express s = None \<longrightarrow>
      (case isPonyExpressImageVisible s of
         (first, s1) \<Rightarrow>
           (case isPonyExpressImageVisible s1 of
              (second, s2) \<Rightarrow> first = Inr False \<and> second = Inr False \<and> s1 = s \<and> s2 = s)))
   \<and> (shopping_cart_badge s = None \<longrightarrow>
      (case isCartBadgeVisible s of
         (first, s1) \<Rightarrow>
           (case isCartBadgeVisible s1 of
              (second, s2) \<Rightarrow> first = Inr False \<and> second = Inr False \<and> s1 = s \<and> s2 = s)))"
  by (simp add: isCartBadgeVisible_def isPonyExpressImageVisible_def isVisible_absent)

theorem visibility_probe_twice_witness:
  "pony_express shop_page = None \<and> shopping_cart_badge shop_page = None
   \<and> isPonyExpressImageVisible (snd (isPonyExpressImageVisible shop_page)) = (Inr False, shop_page)
   \<and> isCartBadgeVisible (snd (isCartBadgeVisible shop_page)) = (Inr False, shop_page)"
proof -
  have h: "pony_express shop_page = None" "shopping_cart_badge shop_page = None"
    by (simp_all add: shop_page_def blank_page_def)
  show ?thesis
    using h visibility_probe_twice [of shop_page]
    by (auto split: prod.splits)
qed







text \<open>
  Claim C7 as stated fails for \<open>LoginPage.waitForInventoryPage\<close>, which passes no
  timeout: with the engine's default of 30 seconds, a navigation that takes 20 seconds
  exceeds 10 seconds and the wait resolves.
\<close>

theorem login_wait_counterexample:
  "exceeds_10s slow_navigation ''.*inventory.html''
   \<and> LoginPage_waitForInventoryPage slow_navigation = Some (Inr ())"
  by (simp add: exceeds_10s_def LoginPage_waitForInventoryPage_def waitForURL_def
      slow_navigation_def)

text \<open>
  Claim C7, amended. \<open>CheckoutStepOnePage.waitForPageLoad\<close>,
  \<open>CheckoutStepTwoPage.waitForCheckoutComplete\<close> and
  \<open>CheckoutCompletePage.waitForInventoryPage\<close> carry the bound of 10 seconds: each
  rejects with a timeout when its URL has not matched after 10 seconds, whatever the
  engine's default, and resolves otherwise. \<open>LoginPage.waitForInventoryPage\<close> waits
  under the engine's default navigation timeout.
\<close>

theorem checkout_waits_bounded_by_10s:
  "(exceeds_10s nav ''.*checkout-step-one.html'' \<longrightarrow>
       CheckoutStepOnePage_waitForPageLoad nav = Some (Inl TimeoutError))
   \<and> (exceeds_10s nav ''.*checkout-complete.html'' \<longrightarrow>
       CheckoutStepTwoPage_waitForCheckoutComplete nav = Some (Inl TimeoutError))
   \<and> (exceeds_10s nav ''.*inventory.html'' \<longrightarrow>
       CheckoutCompletePage_waitForInventoryPage nav = Some (Inl TimeoutError))
   \<and> (\<not> exceeds_10s nav ''.*checkout-step-one.html'' \<longrightarrow>
       CheckoutStepOnePage_waitForPageLoad nav = Some (Inr ()))
   \<and> (\<not> exceeds_10s nav ''.*checkout-complete.html'' \<longrightarrow>
       CheckoutStepTwoPage_waitForCheckoutComplete nav = Some (Inr ()))
   \<and> (\<not> exceeds_10s nav ''.*inventory.html'' \<longrightarrow>
       CheckoutCompletePage_waitForInventoryPage nav = Some (Inr ()))
   \<and> LoginPage_waitForInventoryPage nav
       = waitForURL ''.*inventory.html'' (Some (default_timeout nav)) nav"
  by (simp add: exceeds_10s_def CheckoutStepOnePage_waitForPageLoad_def
      CheckoutStepTwoPage_waitForCheckoutComplete_def CheckoutCompletePage_waitForInventoryPage_def
      LoginPage_waitForInventoryPage_def waitForURL_def split: option.split)

theorem checkout_waits_bounded_by_10s_witness:
  "exceeds_10s slow_navigation ''.*inventory.html''
   \<and> exceeds_10s slow_navigation ''.*checkout-step-one.html''
   \<and> exceeds_10s slow_navigation ''.*checkout-complete.html''
   \<and> CheckoutStepOnePage_waitForPageLoad slow_navigation = Some (Inl TimeoutError)
   \<and> CheckoutStepTwoPage_waitForCheckoutComplete slow_navigation = Some (Inl TimeoutError)
   \<and> CheckoutCompletePage_waitForInventoryPage slow_navigation = Some (Inl TimeoutError)
   \<and> \<not> exceeds_10s (slow_navigation\<lparr>url_matches_after := [(''.*inventory.html'', 800), (''.*checkout-step-one.html'', 900), (''.*checkout-complete.html'', 700)]\<rparr>) ''.*inventory.html''
   \<and> CheckoutCompletePage_waitForInventoryPage (slow_navigation\<lparr>url_matches_after := [(''.*inventory.html'', 800), (''.*checkout-step-one.html'', 900), (''.*checkout-complete.html'', 700)]\<rparr>) = Some (Inr ())"
proof -
  have h: "exceeds_10s slow_navigation ''.*inventory.html''"
    "exceeds_10s slow_navigation ''.*checkout-step-one.html''"
    "exceeds_10s slow_navigation ''.*checkout-complete.html''"
    by (simp_all add: exceeds_10s_def slow_navigation_def)
  have g: "\<not> exceeds_10s (slow_navigation\<lparr>url_matches_after := [(''.*inventory.html'', 800), (''.*checkout-step-one.html'', 900), (''.*checkout-complete.html'', 700)]\<rparr>) ''.*inventory.html''"
    by (simp add: exceeds_10s_def slow_navigation_def)
  show ?thesis
    using h g checkout_waits_bounded_by_10s [of slow_navigation]
      checkout_waits_bounded_by_10s [of "slow_navigation\<lparr>url_matches_after := [(''.*inventory.html'', 800), (''.*checkout-step-one.html'', 900), (''.*checkout-complete.html'', 700)]\<rparr>"]
    by blast
qed

end
